theory Spec2Isabelle
  imports Complex_Main
begin

section \<open>Electron simulation: particles, forces, integration, boundaries\<close>

text \<open>
  The program keeps a list of electrons in a shared environment. Every electron owns a
  process whose loop body computes the Coulomb force on it, integrates its velocity and
  position and reflects it at the arena walls, and then waits one time step.

  Python's floats are modelled as real numbers: the decimal literals of the source are
  read as the exact rationals they denote, and rounding, overflow and NaN are not part
  of the model. Everything that compares, copies, negates or takes an absolute value
  is the same on both; sums, products and quotients are the exact ones here.
\<close>

subsection \<open>Configuration\<close>

definition WIDTH :: real where "WIDTH = 1000"
definition HEIGHT :: real where "HEIGHT = 800"
definition SCALE :: real where "SCALE = 1 / 10 ^ 4"
definition TIME_STEP :: real where "TIME_STEP = 5 / 10 ^ 7"
definition ELECTRON_MASS :: real where "ELECTRON_MASS = 91093837 / 10 ^ 38"
definition ELECTRON_CHARGE :: real where "ELECTRON_CHARGE = - (1602 / 10 ^ 22)"
definition K_CONST :: real where "K_CONST = 899 * 10 ^ 7"
definition V0 :: real where "V0 = 1000"

subsection \<open>Errors and partial arithmetic\<close>

text \<open>
  Float division raises \<open>ZeroDivisionError\<close> on a zero divisor; stepping an environment
  whose schedule is empty raises \<open>EmptySchedule\<close>.
\<close>

datatype error = ZeroDivisionError | EmptySchedule

definition py_div :: "real \<Rightarrow> real \<Rightarrow> error + real" where
  "py_div a b = (if b = 0 then Inl ZeroDivisionError else Inr (a / b))"

definition bind_err :: "error + 'a \<Rightarrow> ('a \<Rightarrow> error + 'b) \<Rightarrow> error + 'b" where
  "bind_err m f = (case m of Inl err \<Rightarrow> Inl err | Inr v \<Rightarrow> f v)"

definition hypot :: "real \<Rightarrow> real \<Rightarrow> real" where
  "hypot a b = sqrt (a ^ 2 + b ^ 2)"

subsection \<open>Electrons\<close>

text \<open>
  The fields of class \<open>Electron\<close>; \<open>id\<close> is called \<open>ident\<close> here. The fields \<open>env\<close>
  and \<open>process\<close> are the links to the scheduler, which the environment record below
  holds instead.
\<close>

record electron =
  ident :: int
  x :: real
  y :: real
  vx :: real
  vy :: real
  force_x :: real
  force_y :: real

definition Electron :: "int \<Rightarrow> real \<Rightarrow> real \<Rightarrow> real \<Rightarrow> real \<Rightarrow> electron" where
  "Electron electron_id px py pvx pvy =
     \<lparr>ident = electron_id, x = px, y = py, vx = pvx, vy = pvy, force_x = 0, force_y = 0\<rparr>"

subsection \<open>Force computation\<close>

text \<open>
  \<open>calculate_forces\<close> walks the shared list \<open>env.electrons\<close> and mutates the electron it
  is called on. The list is the store; \<open>i\<close> is the index of \<open>self\<close> in it and \<open>j\<close>
  the index of \<open>other\<close>. \<open>force_body\<close> is one iteration of the loop.
\<close>

definition force_body :: "nat \<Rightarrow> nat \<Rightarrow> electron list \<Rightarrow> error + electron list" where
  "force_body i j es =
     (if ident (es ! j) \<noteq> ident (es ! i) then
        (let dx = x (es ! i) - x (es ! j);
             dy = y (es ! i) - y (es ! j);
             dist = hypot dx dy
         in if dist < 1 / 10 ^ 12 then Inr es
            else
              bind_err (py_div (K_CONST * ELECTRON_CHARGE ^ 2) (dist ^ 2)) (\<lambda>force_mag.
              bind_err (py_div dx dist) (\<lambda>ux.
              let es1 = es[i := (es ! i)\<lparr>force_x := force_x (es ! i) + force_mag * ux\<rparr>]
              in bind_err (py_div dy dist) (\<lambda>uy.
                 Inr (es1[i := (es1 ! i)\<lparr>force_y := force_y (es1 ! i) + force_mag * uy\<rparr>])))))
      else Inr es)"

fun force_loop :: "nat \<Rightarrow> nat list \<Rightarrow> electron list \<Rightarrow> error + electron list" where
  "force_loop i [] es = Inr es"
| "force_loop i (j # js) es = bind_err (force_body i j es) (force_loop i js)"

definition calculate_forces :: "nat \<Rightarrow> electron list \<Rightarrow> error + electron list" where
  "calculate_forces i es =
     (let es1 = es[i := (es ! i)\<lparr>force_x := 0\<rparr>];
          es2 = es1[i := (es1 ! i)\<lparr>force_y := 0\<rparr>]
      in force_loop i [0..<length es2] es2)"

subsection \<open>Integration and boundaries\<close>

text \<open>These two methods touch the fields of \<open>self\<close> only, so they are functions on one electron.\<close>

definition update_kinematics :: "electron \<Rightarrow> error + electron" where
  "update_kinematics e =
     bind_err (py_div (force_x e) ELECTRON_MASS) (\<lambda>ax.
     let e1 = e\<lparr>vx := vx e + ax * TIME_STEP\<rparr>
     in bind_err (py_div (force_y e1) ELECTRON_MASS) (\<lambda>ay.
        let e2 = e1\<lparr>vy := vy e1 + ay * TIME_STEP\<rparr>;
            e3 = e2\<lparr>x := x e2 + vx e2 * TIME_STEP\<rparr>
        in Inr (e3\<lparr>y := y e3 + vy e3 * TIME_STEP\<rparr>)))"

definition handle_boundaries :: "electron \<Rightarrow> electron" where
  "handle_boundaries e =
     (let max_x = WIDTH * SCALE;
          max_y = HEIGHT * SCALE;
          e1 = (if x e \<le> 0 then e\<lparr>x := 0, vx := \<bar>vx e\<bar>\<rparr>
                else if x e \<ge> max_x then e\<lparr>x := max_x, vx := - \<bar>vx e\<bar>\<rparr>
                else e)
      in if y e1 \<le> 0 then e1\<lparr>y := 0, vy := \<bar>vy e1\<bar>\<rparr>
         else if y e1 \<ge> max_y then e1\<lparr>y := max_y, vy := - \<bar>vy e1\<bar>\<rparr>
         else e1)"

subsection \<open>The process of one electron and the scheduler\<close>

text \<open>
  \<open>update\<close> is the body of the \<open>while True\<close> loop of \<open>Electron.update\<close> up to its
  \<open>yield\<close>, run on the electron at index \<open>i\<close> of the store.
\<close>

definition update :: "nat \<Rightarrow> electron list \<Rightarrow> error + electron list" where
  "update i es =
     bind_err (calculate_forces i es) (\<lambda>es1.
     bind_err (update_kinematics (es1 ! i)) (\<lambda>e2.
     Inr (es1[i := handle_boundaries e2])))"

text \<open>
  The environment of the discrete-event library holds a heap of events ordered by time and
  then by creation. \<open>ElectronSim.__init__\<close> registers the processes in index order, each
  process asks for the same delay \<open>TIME_STEP\<close> at its \<open>yield\<close>, so the heap is a
  first-in first-out queue of processes: \<open>env.step()\<close> takes the process at the head,
  runs its body up to the next \<open>yield\<close>, and puts it back at the end.
\<close>

record env =
  electrons :: "electron list"
  queue :: "nat list"

definition env_step :: "env \<Rightarrow> error + env" where
  "env_step s =
     (case queue s of
        [] \<Rightarrow> Inl EmptySchedule
      | p # ps \<Rightarrow>
          bind_err (update p (electrons s)) (\<lambda>es.
          Inr (s\<lparr>electrons := es, queue := ps @ [p]\<rparr>)))"

text \<open>\<open>env_steps n\<close> is \<open>for _ in range(n): env.step()\<close>, the inner loop of \<open>main\<close> with \<open>n = 10\<close>.\<close>

fun env_steps :: "nat \<Rightarrow> env \<Rightarrow> error + env" where
  "env_steps 0 s = Inr s"
| "env_steps (Suc n) s = bind_err (env_step s) (env_steps n)"

subsection \<open>Construction and snapshots\<close>

text \<open>
  The random source is a sequence of draws of \<open>random.random()\<close>, read from position
  \<open>k\<close> on; \<open>random.uniform(a, b)\<close> is \<open>a + (b - a) * random()\<close>.
\<close>

definition uniform :: "real \<Rightarrow> real \<Rightarrow> real \<Rightarrow> real" where
  "uniform a b u = a + (b - a) * u"

fun init_electrons :: "(nat \<Rightarrow> real) \<Rightarrow> nat \<Rightarrow> nat list \<Rightarrow> electron list" where
  "init_electrons rnd k [] = []"
| "init_electrons rnd k (i # is) =
     (let px = uniform 0 WIDTH (rnd k) * SCALE;
          py = uniform 0 HEIGHT (rnd (k + 1)) * SCALE;
          pvx = uniform (- V0) V0 (rnd (k + 2));
          pvy = uniform (- V0) V0 (rnd (k + 3))
      in Electron (int i) px py pvx pvy # init_electrons rnd (k + 4) is)"



subsection \<open>Auxiliary notions for the properties\<close>

text \<open>\<open>set_force i fx fy es\<close> is the store \<open>es\<close> with the force accumulators of electron \<open>i\<close> replaced.\<close>

definition set_force :: "nat \<Rightarrow> real \<Rightarrow> real \<Rightarrow> electron list \<Rightarrow> electron list" where
  "set_force i fx fy es = es[i := (es ! i)\<lparr>force_x := fx, force_y := fy\<rparr>]"


definition two_apart :: "electron list" where
  "two_apart = [Electron 0 (1 / 100) (1 / 25) 0 0, Electron 1 (1 / 50) (1 / 25) 0 0]"

text \<open>The arena: \<open>0 \<le> x \<le> max_x\<close> and \<open>0 \<le> y \<le> max_y\<close>.\<close>

definition in_arena :: "electron \<Rightarrow> bool" where
  "in_arena e \<longleftrightarrow> 0 \<le> x e \<and> x e \<le> WIDTH * SCALE \<and> 0 \<le> y e \<and> y e \<le> HEIGHT * SCALE"

text \<open>The store that \<open>update\<close> returns; \<open>update\<close> is shown below never to fail.\<close>

definition update_total :: "nat \<Rightarrow> electron list \<Rightarrow> electron list" where
  "update_total i es = projr (update i es)"

text \<open>
  One step of a particle that feels no force, in the words of the specification: the
  force is zero, the position moves under the velocity, and the walls reflect.
\<close>

definition free_flight :: "electron \<Rightarrow> electron" where
  "free_flight e =
     handle_boundaries
       (e\<lparr>force_x := 0, force_y := 0, x := x e + vx e * TIME_STEP, y := y e + vy e * TIME_STEP\<rparr>)"

text \<open>
  Two observations of the force on electron \<open>i\<close>. \<open>snapshot_forces s i\<close> is what
  \<open>calculate_forces\<close> yields for it on the store of \<open>s\<close> as it stands;
  \<open>round_forces s i\<close> is what its accumulators hold after one round from \<open>s\<close>, that
  is after as many calls of \<open>env.step()\<close> as there are electrons.
\<close>

definition snapshot_forces :: "env \<Rightarrow> nat \<Rightarrow> error + real \<times> real" where
  "snapshot_forces s i =
     bind_err (calculate_forces i (electrons s)) (\<lambda>es. Inr (force_x (es ! i), force_y (es ! i)))"

definition round_forces :: "env \<Rightarrow> nat \<Rightarrow> error + real \<times> real" where
  "round_forces s i =
     bind_err (env_steps (length (electrons s)) s)
       (\<lambda>s'. Inr (force_x (electrons s' ! i), force_y (electrons s' ! i)))"

text \<open>An environment of the two electrons at rest, at the start of a round.\<close>

definition two_at_rest :: env where
  "two_at_rest = \<lparr>electrons = two_apart, queue = [0, 1]\<rparr>"

text \<open>An environment of a single moving electron.\<close>

definition one_moving :: env where
  "one_moving = \<lparr>electrons = [Electron 0 (1 / 100) (1 / 25) 1000 (- 1000)], queue = [0]\<rparr>"

section \<open>Properties\<close>

subsection \<open>Basic facts\<close>

lemma bind_err_Inr [simp]: "bind_err (Inr v) f = f v"
  by (simp add: bind_err_def)

lemma bind_err_Inl [simp]: "bind_err (Inl err) f = Inl err"
  by (simp add: bind_err_def)

lemma mass_nonzero: "ELECTRON_MASS \<noteq> 0"
  by (simp add: ELECTRON_MASS_def)

lemma update_kinematics_Inr:
  "update_kinematics e =
     Inr (e\<lparr>vx := vx e + force_x e / ELECTRON_MASS * TIME_STEP,
            vy := vy e + force_y e / ELECTRON_MASS * TIME_STEP,
            x := x e + (vx e + force_x e / ELECTRON_MASS * TIME_STEP) * TIME_STEP,
            y := y e + (vy e + force_y e / ELECTRON_MASS * TIME_STEP) * TIME_STEP\<rparr>)"
  by (simp add: update_kinematics_def py_div_def mass_nonzero Let_def)

lemma hypot_swap: "hypot (a - b) (c - d) = hypot (b - a) (d - c)"
  by (simp add: hypot_def power2_commute)


lemma hypot_scale: "0 \<le> c \<Longrightarrow> hypot (c * a) (c * b) = c * hypot a b"
  by (simp add: hypot_def power_mult_distrib real_sqrt_mult flip: distrib_left)

lemma coulomb_pos: "0 < K_CONST * ELECTRON_CHARGE ^ 2"
  by (simp add: K_CONST_def ELECTRON_CHARGE_def)

lemma hypot_axis: "hypot a 0 = \<bar>a\<bar>"
  by (simp add: hypot_def)

subsection \<open>The shape of the force computation\<close>

lemma set_force_same: "set_force i (force_x (es ! i)) (force_y (es ! i)) es = es"
  by (simp add: set_force_def)

lemma set_force_twice: "set_force i fx fy (set_force i gx gy es) = set_force i fx fy es"
  by (cases "i < length es") (simp_all add: set_force_def list_update_beyond)

lemma force_body_far:
  assumes "ident (es ! j) \<noteq> ident (es ! i)"
    and "\<not> hypot (x (es ! i) - x (es ! j)) (y (es ! i) - y (es ! j)) < 1 / 10 ^ 12"
  shows "force_body i j es =
     Inr (set_force i
       (force_x (es ! i) + K_CONST * ELECTRON_CHARGE ^ 2
            / (hypot (x (es ! i) - x (es ! j)) (y (es ! i) - y (es ! j))) ^ 2
          * ((x (es ! i) - x (es ! j)) / hypot (x (es ! i) - x (es ! j)) (y (es ! i) - y (es ! j))))
       (force_y (es ! i) + K_CONST * ELECTRON_CHARGE ^ 2
            / (hypot (x (es ! i) - x (es ! j)) (y (es ! i) - y (es ! j))) ^ 2
          * ((y (es ! i) - y (es ! j)) / hypot (x (es ! i) - x (es ! j)) (y (es ! i) - y (es ! j))))
       es)"
proof -
  let ?d = "hypot (x (es ! i) - x (es ! j)) (y (es ! i) - y (es ! j))"
  from assms(2) have pos: "?d \<noteq> 0" by auto
  show ?thesis
  proof (cases "i < length es")
    case True
    with assms pos show ?thesis
      by (simp add: force_body_def Let_def py_div_def set_force_def)
  next
    case False
    with assms pos show ?thesis
      by (simp add: force_body_def Let_def py_div_def set_force_def list_update_beyond)
  qed
qed

lemma force_body_skip:
  "ident (es ! j) = ident (es ! i)
     \<or> hypot (x (es ! i) - x (es ! j)) (y (es ! i) - y (es ! j)) < 1 / 10 ^ 12
   \<Longrightarrow> force_body i j es = Inr es"
  by (auto simp add: force_body_def Let_def)

lemma force_body_shape: "\<exists>fx fy. force_body i j es = Inr (set_force i fx fy es)"
proof (cases "ident (es ! j) = ident (es ! i)
     \<or> hypot (x (es ! i) - x (es ! j)) (y (es ! i) - y (es ! j)) < 1 / 10 ^ 12")
  case True
  then have "force_body i j es = Inr es" by (rule force_body_skip)
  then show ?thesis using set_force_same [of i es] by metis
next
  case False
  then show ?thesis using force_body_far [of es j i] by blast
qed

lemma force_loop_shape:
  "\<exists>fx fy. force_loop i js (set_force i gx gy es) = Inr (set_force i fx fy es)"
proof (induction js arbitrary: gx gy)
  case Nil
  show ?case by auto
next
  case (Cons j js)
  obtain fx fy where
    "force_body i j (set_force i gx gy es) = Inr (set_force i fx fy (set_force i gx gy es))"
    using force_body_shape by blast
  then have "force_body i j (set_force i gx gy es) = Inr (set_force i fx fy es)"
    by (simp add: set_force_twice)
  with Cons.IH [of fx fy] show ?case by simp
qed

lemma calculate_forces_shape:
  "\<exists>fx fy. calculate_forces i es = Inr (set_force i fx fy es)"
proof -
  have "calculate_forces i es = force_loop i [0..<length es] (set_force i 0 0 es)"
    by (cases "i < length es") (simp_all add: calculate_forces_def Let_def set_force_def list_update_beyond)
  then show ?thesis using force_loop_shape by simp
qed


subsection \<open>One process step and the scheduler\<close>

lemma handle_boundaries_in_arena: "in_arena (handle_boundaries e)"
  by (simp add: in_arena_def handle_boundaries_def Let_def WIDTH_def HEIGHT_def SCALE_def)

lemma handle_boundaries_forces:
  "force_x (handle_boundaries e) = force_x e \<and> force_y (handle_boundaries e) = force_y e
   \<and> ident (handle_boundaries e) = ident e"
  by (simp add: handle_boundaries_def Let_def)

lemma update_unfold:
  "\<exists>fx fy e2. calculate_forces i es = Inr (set_force i fx fy es)
      \<and> update_kinematics (set_force i fx fy es ! i) = Inr e2
      \<and> update i es = Inr (es[i := handle_boundaries e2])"
proof -
  obtain fx fy where cf: "calculate_forces i es = Inr (set_force i fx fy es)"
    using calculate_forces_shape by blast
  obtain e2 where kin: "update_kinematics (set_force i fx fy es ! i) = Inr e2"
    using update_kinematics_Inr by blast
  have "update i es = Inr ((set_force i fx fy es)[i := handle_boundaries e2])"
    by (simp add: update_def cf kin)
  then have "update i es = Inr (es[i := handle_boundaries e2])"
    by (simp add: set_force_def)
  with cf kin show ?thesis by blast
qed

lemma update_Inr: "update i es = Inr (update_total i es)"
  using update_unfold [of i es] by (auto simp add: update_total_def)

lemma update_total_shape: "\<exists>e'. update_total i es = es[i := e'] \<and> in_arena e'"
  using update_unfold [of i es] by (auto simp add: update_total_def handle_boundaries_in_arena)

lemma length_update_total [simp]: "length (update_total i es) = length es"
  using update_total_shape [of i es] by auto

lemma update_total_other: "j \<noteq> i \<Longrightarrow> update_total i es ! j = es ! j"
  using update_total_shape [of i es] by auto

lemma update_total_in_arena: "i < length es \<Longrightarrow> in_arena (update_total i es ! i)"
  using update_total_shape [of i es] by auto

lemma length_fold_update_total [simp]: "length (fold update_total js es) = length es"
  by (induction js arbitrary: es) simp_all

lemma fold_update_total_other: "j \<notin> set js \<Longrightarrow> fold update_total js es ! j = es ! j"
  by (induction js arbitrary: es) (simp_all add: update_total_other)

lemma fold_update_total_in_arena:
  "j < length es \<Longrightarrow> j \<in> set js \<or> in_arena (es ! j)
   \<Longrightarrow> in_arena (fold update_total js es ! j)"
proof (induction js arbitrary: es)
  case Nil
  then show ?case by simp
next
  case (Cons k js)
  have "j \<in> set js \<or> in_arena (update_total k es ! j)"
  proof (cases "j = k")
    case True
    with Cons.prems show ?thesis by (simp add: update_total_in_arena)
  next
    case False
    with Cons.prems show ?thesis by (auto simp add: update_total_other)
  qed
  with Cons.IH [of "update_total k es"] Cons.prems(1) show ?case by simp
qed

lemma env_step_rotated:
  assumes "queue s = rotate a [0..<N]" and "0 < N"
  shows "env_step s =
     Inr (s\<lparr>electrons := update_total (a mod N) (electrons s), queue := rotate (Suc a) [0..<N]\<rparr>)"
proof -
  let ?q = "rotate a [0..<N]"
  from assms(2) have ne: "?q \<noteq> []" by simp
  then obtain p ps where q: "?q = p # ps" by (cases ?q) auto
  have "p = hd ?q" using q by simp
  also have "\<dots> = [0..<N] ! (a mod N)"
    using assms(2) by (simp add: hd_rotate_conv_nth)
  also have "\<dots> = a mod N" using assms(2) by simp
  finally have p: "p = a mod N" .
  have "ps @ [p] = rotate1 ?q" using q by simp
  then have requeue: "ps @ [p] = rotate (Suc a) [0..<N]" by simp
  show ?thesis
    using assms(1) q by (simp add: env_step_def update_Inr p requeue)
qed

lemma env_steps_rotated:
  "queue s = rotate a [0..<N] \<Longrightarrow> 0 < N \<Longrightarrow>
   env_steps n s =
     Inr (s\<lparr>electrons := fold update_total (map (\<lambda>k. k mod N) [a..<a + n]) (electrons s),
            queue := rotate (a + n) [0..<N]\<rparr>)"
proof (induction n arbitrary: s a)
  case 0
  then show ?case by simp
next
  case (Suc n)
  let ?s1 = "s\<lparr>electrons := update_total (a mod N) (electrons s), queue := rotate (Suc a) [0..<N]\<rparr>"
  have step: "env_step s = Inr ?s1"
    using Suc.prems by (rule env_step_rotated)
  have "queue ?s1 = rotate (Suc a) [0..<N]" by simp
  from Suc.IH [OF this Suc.prems(2)]
  have "env_steps n ?s1 =
     Inr (?s1\<lparr>electrons := fold update_total (map (\<lambda>k. k mod N) [Suc a..<Suc a + n]) (electrons ?s1),
            queue := rotate (Suc a + n) [0..<N]\<rparr>)" .
  moreover have "[a..<a + Suc n] = a # [Suc a..<Suc a + n]"
    by (simp add: upt_rec)
  ultimately show ?case
    using step by simp
qed


lemma env_steps_from_start:
  assumes "queue s = [0..<length (electrons s)]" and "electrons s \<noteq> []"
  shows "env_steps n s =
     Inr (s\<lparr>electrons := fold update_total (map (\<lambda>k. k mod length (electrons s)) [0..<n]) (electrons s),
            queue := rotate n [0..<length (electrons s)]\<rparr>)"
  using env_steps_rotated [of s 0 "length (electrons s)" n] assms by simp

lemma map_mod_upt: "n \<le> N \<Longrightarrow> map (\<lambda>k. k mod N) [0..<n] = [0..<n]"
  by (rule map_idI) simp

lemma update_kinematics_forces:
  "update_kinematics e = Inr e2 \<Longrightarrow> force_x e2 = force_x e \<and> force_y e2 = force_y e"
  by (auto simp add: update_kinematics_Inr)

lemma update_total_forces:
  assumes "i < length es"
  shows "\<exists>es1. calculate_forces i es = Inr es1
     \<and> force_x (update_total i es ! i) = force_x (es1 ! i)
     \<and> force_y (update_total i es ! i) = force_y (es1 ! i)"
proof -
  obtain fx fy e2 where cf: "calculate_forces i es = Inr (set_force i fx fy es)"
    and kin: "update_kinematics (set_force i fx fy es ! i) = Inr e2"
    and upd: "update i es = Inr (es[i := handle_boundaries e2])"
    using update_unfold by blast
  from upd have "update_total i es ! i = handle_boundaries e2"
    using assms by (simp add: update_total_def)
  with update_kinematics_forces [OF kin]
  have "force_x (update_total i es ! i) = force_x (set_force i fx fy es ! i)
      \<and> force_y (update_total i es ! i) = force_y (set_force i fx fy es ! i)"
    by (simp add: handle_boundaries_forces)
  with cf show ?thesis by blast
qed

subsection \<open>A single electron\<close>

lemma single_calculate_forces:
  "calculate_forces 0 [e] = Inr [e\<lparr>force_x := 0, force_y := 0\<rparr>]"
  by (simp add: calculate_forces_def Let_def force_body_def)

lemma single_update: "update 0 [e] = Inr [free_flight e]"
  by (simp add: update_def single_calculate_forces update_kinematics_Inr free_flight_def)

lemma single_env_step:
  assumes "electrons s = [e]" and "queue s = [0]"
  shows "env_step s = Inr (s\<lparr>electrons := [free_flight e]\<rparr>)"
  using assms by (simp add: env_step_def single_update)

lemma single_env_steps:
  "electrons s = [e] \<Longrightarrow> queue s = [0]
   \<Longrightarrow> env_steps n s = Inr (s\<lparr>electrons := [(free_flight ^^ n) e]\<rparr>)"
proof (induction n arbitrary: s e)
  case 0
  then show ?case by simp
next
  case (Suc n)
  let ?s1 = "s\<lparr>electrons := [free_flight e]\<rparr>"
  have "env_step s = Inr ?s1" using Suc.prems by (rule single_env_step)
  moreover have "env_steps n ?s1 = Inr (?s1\<lparr>electrons := [(free_flight ^^ n) (free_flight e)]\<rparr>)"
    using Suc.prems by (intro Suc.IH) simp_all
  ultimately show ?case by (simp add: funpow_swap1)
qed

lemma free_flight_forces: "force_x (free_flight e) = 0 \<and> force_y (free_flight e) = 0"
  by (simp add: free_flight_def handle_boundaries_forces)

subsection \<open>Construction\<close>

lemma length_init_electrons [simp]: "length (init_electrons rnd k js) = length js"
  by (induction js arbitrary: k) (simp_all add: Let_def)


subsection \<open>One round of the two electrons at rest, evaluated\<close>

lemma two_apart_forces_0:
  "calculate_forces 0 two_apart =
     Inr [\<lparr>ident = 0, x = 1 / 100, y = 1 / 25, vx = 0, vy = 0, force_x = - (576799299 / 250000000000000000000000000000000), force_y = 0\<rparr>,
          Electron 1 (1 / 50) (1 / 25) 0 0]"
  by (simp add: two_apart_def Electron_def calculate_forces_def force_body_def Let_def py_div_def hypot_axis K_CONST_def ELECTRON_CHARGE_def power2_eq_square)

lemma two_apart_update_0:
  "update 0 two_apart =
     Inr [\<lparr>ident = 0, x = 9108806900701 / 910938370000000, y = 1 / 25, vx = - (576799299 / 455469185), vy = 0, force_x = - (576799299 / 250000000000000000000000000000000), force_y = 0\<rparr>,
          Electron 1 (1 / 50) (1 / 25) 0 0]"
  by (simp add: update_def two_apart_forces_0 update_kinematics_Inr handle_boundaries_def
      ELECTRON_MASS_def TIME_STEP_def WIDTH_def HEIGHT_def SCALE_def)

lemma two_apart_forces_1:
  "calculate_forces (Suc 0)
     [\<lparr>ident = 0, x = 9108806900701 / 910938370000000, y = 1 / 25, vx = - (576799299 / 455469185), vy = 0, force_x = - (576799299 / 250000000000000000000000000000000), force_y = 0\<rparr>,
      Electron 1 (1 / 50) (1 / 25) 0 0] =
     Inr [\<lparr>ident = 0, x = 9108806900701 / 910938370000000, y = 1 / 25, vx = - (576799299 / 455469185), vy = 0, force_x = - (576799299 / 250000000000000000000000000000000), force_y = 0\<rparr>,
          \<lparr>ident = 1, x = 1 / 50, y = 1 / 25, vx = 0, vy = 0, force_x = 4786330845036781092019131 / 2074784507469702134487285025000000000000000000000, force_y = 0\<rparr>]"
  by (simp add: Electron_def calculate_forces_def force_body_def Let_def py_div_def hypot_axis K_CONST_def ELECTRON_CHARGE_def power2_eq_square)

lemma two_apart_snapshot_1:
  "calculate_forces (Suc 0) two_apart =
     Inr [Electron 0 (1 / 100) (1 / 25) 0 0,
          \<lparr>ident = 1, x = 1 / 50, y = 1 / 25, vx = 0, vy = 0, force_x = 576799299 / 250000000000000000000000000000000, force_y = 0\<rparr>]"
  by (simp add: two_apart_def Electron_def calculate_forces_def force_body_def Let_def py_div_def hypot_axis K_CONST_def ELECTRON_CHARGE_def power2_eq_square)


lemma two_apart_update_1:
  "update (Suc 0)
     [\<lparr>ident = 0, x = 9108806900701 / 910938370000000, y = 1 / 25, vx = - (576799299 / 455469185), vy = 0, force_x = - (576799299 / 250000000000000000000000000000000), force_y = 0\<rparr>,
      Electron 1 (1 / 50) (1 / 25) 0 0] =
     Inr [\<lparr>ident = 0, x = 9108806900701 / 910938370000000, y = 1 / 25, vx = - (576799299 / 455469185), vy = 0, force_x = - (576799299 / 250000000000000000000000000000000), force_y = 0\<rparr>,
          \<lparr>ident = 1, x = 82994007441854326392641401 / 4149569014939404268974570050, y = 1 / 25, vx = 105085722649640526000000000 / 82991380298788085379491401, vy = 0, force_x = 4786330845036781092019131 / 2074784507469702134487285025000000000000000000000, force_y = 0\<rparr>]"
  by (simp add: update_def two_apart_forces_1 update_kinematics_Inr handle_boundaries_def
      ELECTRON_MASS_def TIME_STEP_def WIDTH_def HEIGHT_def SCALE_def)

lemma two_at_rest_round:
  "env_steps 2 two_at_rest =
     Inr \<lparr>electrons =
            [\<lparr>ident = 0, x = 9108806900701 / 910938370000000, y = 1 / 25, vx = - (576799299 / 455469185), vy = 0, force_x = - (576799299 / 250000000000000000000000000000000), force_y = 0\<rparr>,
             \<lparr>ident = 1, x = 82994007441854326392641401 / 4149569014939404268974570050, y = 1 / 25, vx = 105085722649640526000000000 / 82991380298788085379491401, vy = 0, force_x = 4786330845036781092019131 / 2074784507469702134487285025000000000000000000000, force_y = 0\<rparr>],
          queue = [0, 1]\<rparr>"
  by (simp add: numeral_2_eq_2 two_at_rest_def env_step_def two_apart_update_0 two_apart_update_1)

subsection \<open>Integration\<close>

text \<open>
  C3. Given the accumulated force of an electron, the kinematic update never fails; it
  first sets the velocity to \<open>v + (f / m) * dt\<close> and then the position to
  \<open>p + v' * dt\<close> with the updated velocity \<open>v'\<close>. Identity and force accumulators stay
  as they were, and the function reads and returns this one electron only.
\<close>

theorem update_kinematics_forward_euler:
  "\<exists>e'. update_kinematics e = Inr e'
      \<and> vx e' = vx e + (force_x e / ELECTRON_MASS) * TIME_STEP
      \<and> vy e' = vy e + (force_y e / ELECTRON_MASS) * TIME_STEP
      \<and> x e' = x e + vx e' * TIME_STEP
      \<and> y e' = y e + vy e' * TIME_STEP
      \<and> ident e' = ident e \<and> force_x e' = force_x e \<and> force_y e' = force_y e"
  by (simp add: update_kinematics_Inr)

subsection \<open>Boundary handling\<close>

text \<open>
  C4. Boundary handling leaves the absolute value of each velocity component as it was,
  so the squared speed \<open>vx^2 + vy^2\<close> is the same before and after.
\<close>

theorem handle_boundaries_lossless:
  "\<bar>vx (handle_boundaries e)\<bar> = \<bar>vx e\<bar>
   \<and> \<bar>vy (handle_boundaries e)\<bar> = \<bar>vy e\<bar>
   \<and> (vx (handle_boundaries e)) ^ 2 + (vy (handle_boundaries e)) ^ 2 = (vx e) ^ 2 + (vy e) ^ 2"
  by (simp add: handle_boundaries_def Let_def)

text \<open>
  C9. For an electron strictly inside the arena, boundary handling is the identity.
\<close>

theorem handle_boundaries_inside:
  "0 < x e \<Longrightarrow> x e < WIDTH * SCALE \<Longrightarrow> 0 < y e \<Longrightarrow> y e < HEIGHT * SCALE
   \<Longrightarrow> handle_boundaries e = e"
  by (simp add: handle_boundaries_def Let_def)

theorem handle_boundaries_inside_witness:
  "0 < x (Electron 0 (1 / 100) (1 / 100) 5 (- 7))
   \<and> x (Electron 0 (1 / 100) (1 / 100) 5 (- 7)) < WIDTH * SCALE
   \<and> 0 < y (Electron 0 (1 / 100) (1 / 100) 5 (- 7))
   \<and> y (Electron 0 (1 / 100) (1 / 100) 5 (- 7)) < HEIGHT * SCALE
   \<and> handle_boundaries (Electron 0 (1 / 100) (1 / 100) 5 (- 7))
       = Electron 0 (1 / 100) (1 / 100) 5 (- 7)"
proof -
  have h: "0 < x (Electron 0 (1 / 100) (1 / 100) 5 (- 7))"
    "x (Electron 0 (1 / 100) (1 / 100) 5 (- 7)) < WIDTH * SCALE"
    "0 < y (Electron 0 (1 / 100) (1 / 100) 5 (- 7))"
    "y (Electron 0 (1 / 100) (1 / 100) 5 (- 7)) < HEIGHT * SCALE"
    by (simp_all add: Electron_def WIDTH_def HEIGHT_def SCALE_def)
  from h handle_boundaries_inside [OF h] show ?thesis by simp
qed

subsection \<open>Force computation\<close>

text \<open>
  C10. The force computation for electron \<open>i\<close> never fails, and its result is the store it
  started from with nothing but the two force accumulators of electron \<open>i\<close> replaced:
  positions, velocities and identities of all electrons and the force accumulators of all
  other electrons are as before.
\<close>

theorem calculate_forces_frame:
  "\<exists>fx fy. calculate_forces i es = Inr (es[i := (es ! i)\<lparr>force_x := fx, force_y := fy\<rparr>])"
  using calculate_forces_shape [of i es] by (simp add: set_force_def)



text \<open>
  C6. For two electrons with different identities at distance \<open>r\<close> of at least \<open>1e-12\<close>,
  the iteration for \<open>other = j\<close> on \<open>self = i\<close> adds a vector \<open>(cx, cy)\<close> to the force
  of \<open>i\<close>, and the iteration for \<open>other = i\<close> on \<open>self = j\<close> adds \<open>(- cx, - cy)\<close> to
  the force of \<open>j\<close>. The vector has length \<open>K * q^2 / r^2\<close> and is a positive multiple
  of the vector from \<open>j\<close> to \<open>i\<close>.
\<close>

theorem force_body_newton_third:
  assumes distinct: "ident (es ! i) \<noteq> ident (es ! j)"
    and far: "1 / 10 ^ 12 \<le> hypot (x (es ! i) - x (es ! j)) (y (es ! i) - y (es ! j))"
  shows "\<exists>cx cy.
      force_body i j es =
        Inr (es[i := (es ! i)\<lparr>force_x := force_x (es ! i) + cx, force_y := force_y (es ! i) + cy\<rparr>])
    \<and> force_body j i es =
        Inr (es[j := (es ! j)\<lparr>force_x := force_x (es ! j) - cx, force_y := force_y (es ! j) - cy\<rparr>])
    \<and> hypot cx cy = K_CONST * ELECTRON_CHARGE ^ 2
                       / (hypot (x (es ! i) - x (es ! j)) (y (es ! i) - y (es ! j))) ^ 2
    \<and> (\<exists>c. 0 < c \<and> cx = c * (x (es ! i) - x (es ! j)) \<and> cy = c * (y (es ! i) - y (es ! j)))"
proof -
  define dx where "dx = x (es ! i) - x (es ! j)"
  define dy where "dy = y (es ! i) - y (es ! j)"
  define r where "r = hypot dx dy"
  define m where "m = K_CONST * ELECTRON_CHARGE ^ 2 / r ^ 2"
  from far have r_pos: "0 < r"
    unfolding r_def dx_def dy_def by simp
  have r_back: "hypot (x (es ! j) - x (es ! i)) (y (es ! j) - y (es ! i)) = r"
    unfolding r_def dx_def dy_def by (rule hypot_swap)
  have m_pos: "0 < m"
    unfolding m_def using r_pos coulomb_pos by simp
  have fwd: "force_body i j es =
      Inr (es[i := (es ! i)\<lparr>force_x := force_x (es ! i) + m * (dx / r),
                             force_y := force_y (es ! i) + m * (dy / r)\<rparr>])"
    using force_body_far [of es j i] distinct far
    unfolding m_def r_def dx_def dy_def set_force_def by simp
  have "force_body j i es =
      Inr (es[j := (es ! j)\<lparr>force_x := force_x (es ! j) + m * ((x (es ! j) - x (es ! i)) / r),
                             force_y := force_y (es ! j) + m * ((y (es ! j) - y (es ! i)) / r)\<rparr>])"
    using force_body_far [of es i j] distinct far r_back
    unfolding m_def set_force_def by (simp add: r_def dx_def dy_def)
  moreover have "x (es ! j) - x (es ! i) = - dx" "y (es ! j) - y (es ! i) = - dy"
    by (simp_all add: dx_def dy_def)
  ultimately have bwd: "force_body j i es =
      Inr (es[j := (es ! j)\<lparr>force_x := force_x (es ! j) - m * (dx / r),
                             force_y := force_y (es ! j) - m * (dy / r)\<rparr>])"
    by simp
  have "hypot (m * (dx / r)) (m * (dy / r)) = hypot ((m / r) * dx) ((m / r) * dy)"
    by simp
  also have "\<dots> = (m / r) * hypot dx dy"
    using m_pos r_pos by (intro hypot_scale) simp
  also have "\<dots> = m"
    using r_pos by (simp add: r_def)
  finally have mag: "hypot (m * (dx / r)) (m * (dy / r)) = m" .
  have dir: "0 < m / r \<and> m * (dx / r) = (m / r) * dx \<and> m * (dy / r) = (m / r) * dy"
    using m_pos r_pos by simp
  from fwd bwd mag dir show ?thesis
    unfolding m_def r_def dx_def dy_def by blast
qed


theorem force_body_newton_third_witness:
  "ident (two_apart ! 0) \<noteq> ident (two_apart ! 1)
   \<and> 1 / 10 ^ 12 \<le> hypot (x (two_apart ! 0) - x (two_apart ! 1)) (y (two_apart ! 0) - y (two_apart ! 1))
   \<and> (\<exists>cx cy.
        force_body 0 1 two_apart =
          Inr (two_apart[0 := (two_apart ! 0)\<lparr>force_x := force_x (two_apart ! 0) + cx,
                                                  force_y := force_y (two_apart ! 0) + cy\<rparr>])
      \<and> force_body 1 0 two_apart =
          Inr (two_apart[1 := (two_apart ! 1)\<lparr>force_x := force_x (two_apart ! 1) - cx,
                                                  force_y := force_y (two_apart ! 1) - cy\<rparr>])
      \<and> hypot cx cy = K_CONST * ELECTRON_CHARGE ^ 2
            / (hypot (x (two_apart ! 0) - x (two_apart ! 1)) (y (two_apart ! 0) - y (two_apart ! 1))) ^ 2
      \<and> (\<exists>c. 0 < c \<and> cx = c * (x (two_apart ! 0) - x (two_apart ! 1))
                    \<and> cy = c * (y (two_apart ! 0) - y (two_apart ! 1))))"
proof -
  have h1: "ident (two_apart ! 0) \<noteq> ident (two_apart ! 1)"
    by (simp add: two_apart_def Electron_def)
  have h2: "1 / 10 ^ 12 \<le> hypot (x (two_apart ! 0) - x (two_apart ! 1)) (y (two_apart ! 0) - y (two_apart ! 1))"
    by (simp add: two_apart_def Electron_def hypot_axis)
  from h1 h2 force_body_newton_third [OF h1 h2] show ?thesis by blast
qed

subsection \<open>Rounds of the scheduler\<close>

text \<open>
  C2. Boundary handling puts any electron into the arena, whatever integration produced.
  From the start of a round, any number \<open>n\<close> of calls of \<open>env.step()\<close> succeeds, and
  afterwards electron \<open>j\<close> is in the arena if it has been stepped (\<open>j < n\<close>) or was in
  the arena before; so after every complete round every electron is in the arena.
\<close>

theorem boundary_invariant:
  assumes "queue s = [0..<length (electrons s)]"
    and "j < length (electrons s)"
    and "j < n \<or> in_arena (electrons s ! j)"
  shows "in_arena (handle_boundaries e)
    \<and> (\<exists>s'. env_steps n s = Inr s' \<and> length (electrons s') = length (electrons s)
           \<and> in_arena (electrons s' ! j))"
proof -
  let ?N = "length (electrons s)"
  let ?js = "map (\<lambda>k. k mod ?N) [0..<n]"
  from assms(2) have ne: "electrons s \<noteq> []" by auto
  have run: "env_steps n s =
     Inr (s\<lparr>electrons := fold update_total ?js (electrons s), queue := rotate n [0..<?N]\<rparr>)"
    using assms(1) ne by (rule env_steps_from_start)
  have "j \<in> set ?js \<or> in_arena (electrons s ! j)"
  proof (cases "j < n")
    case True
    then have "j \<in> set [0..<n]" by simp
    moreover have "j mod ?N = j" using assms(2) by simp
    ultimately have "j \<in> set ?js" by force
    then show ?thesis ..
  next
    case False
    with assms(3) show ?thesis by simp
  qed
  with assms(2) have "in_arena (fold update_total ?js (electrons s) ! j)"
    by (rule fold_update_total_in_arena)
  with run show ?thesis
    by (simp add: handle_boundaries_in_arena)
qed

theorem boundary_invariant_witness:
  "queue two_at_rest = [0..<length (electrons two_at_rest)]
   \<and> 1 < length (electrons two_at_rest)
   \<and> (1::nat) < 2
   \<and> in_arena (handle_boundaries (Electron 0 1 (- 1) 0 0))
   \<and> (\<exists>s'. env_steps 2 two_at_rest = Inr s'
          \<and> length (electrons s') = length (electrons two_at_rest)
          \<and> in_arena (electrons s' ! 1))"
proof -
  have h1: "queue two_at_rest = [0..<length (electrons two_at_rest)]"
    by (simp add: two_at_rest_def two_apart_def)
  have h2: "1 < length (electrons two_at_rest)"
    by (simp add: two_at_rest_def two_apart_def)
  have h3: "1 < (2::nat) \<or> in_arena (electrons two_at_rest ! 1)"
    by simp
  from h1 h2 boundary_invariant [OF h1 h2 h3, of "Electron 0 1 (- 1) 0 0"] show ?thesis by simp
qed

text \<open>
  C7. With a single electron the force computation yields zero force, every call of
  \<open>env.step()\<close> is one step of free flight with reflection, and after any positive number
  of steps the force accumulators are zero.
\<close>

theorem single_electron_free:
  assumes "electrons s = [e]" and "queue s = [0]"
  shows "calculate_forces 0 (electrons s) = Inr [e\<lparr>force_x := 0, force_y := 0\<rparr>]
    \<and> env_steps n s = Inr (s\<lparr>electrons := [(free_flight ^^ n) e]\<rparr>)
    \<and> (0 < n \<longrightarrow> force_x ((free_flight ^^ n) e) = 0 \<and> force_y ((free_flight ^^ n) e) = 0)"
proof (intro conjI impI)
  show "calculate_forces 0 (electrons s) = Inr [e\<lparr>force_x := 0, force_y := 0\<rparr>]"
    using assms(1) by (simp add: single_calculate_forces)
  show "env_steps n s = Inr (s\<lparr>electrons := [(free_flight ^^ n) e]\<rparr>)"
    using assms by (rule single_env_steps)
next
  assume "0 < n"
  then obtain k where "n = Suc k" by (cases n) auto
  then show "force_x ((free_flight ^^ n) e) = 0" "force_y ((free_flight ^^ n) e) = 0"
    by (simp_all add: free_flight_forces)
qed

theorem single_electron_free_witness:
  "electrons one_moving = [Electron 0 (1 / 100) (1 / 25) 1000 (- 1000)]
   \<and> queue one_moving = [0]
   \<and> calculate_forces 0 (electrons one_moving)
        = Inr [(Electron 0 (1 / 100) (1 / 25) 1000 (- 1000))\<lparr>force_x := 0, force_y := 0\<rparr>]
   \<and> env_steps 3 one_moving
        = Inr (one_moving\<lparr>electrons := [(free_flight ^^ 3) (Electron 0 (1 / 100) (1 / 25) 1000 (- 1000))]\<rparr>)
   \<and> force_x ((free_flight ^^ 3) (Electron 0 (1 / 100) (1 / 25) 1000 (- 1000))) = 0
   \<and> force_y ((free_flight ^^ 3) (Electron 0 (1 / 100) (1 / 25) 1000 (- 1000))) = 0"
proof -
  have h1: "electrons one_moving = [Electron 0 (1 / 100) (1 / 25) 1000 (- 1000)]"
    by (simp add: one_moving_def)
  have h2: "queue one_moving = [0]"
    by (simp add: one_moving_def)
  from h1 h2 single_electron_free [OF h1 h2, of 3] show ?thesis by simp
qed




text \<open>
  C1, as stated, says that the force on every electron in a round is the one computed from
  the positions at the start of the round. For the two electrons at rest it is not: the
  first electron has moved before the second computes its force, and the second electron
  ends the round with a force other than the one the start positions give.
\<close>

theorem forces_not_from_start_positions:
  "snapshot_forces two_at_rest 1 = Inr (576799299 / 250000000000000000000000000000000, 0)
   \<and> round_forces two_at_rest 1 = Inr (4786330845036781092019131 / 2074784507469702134487285025000000000000000000000, 0)
   \<and> round_forces two_at_rest 1 \<noteq> snapshot_forces two_at_rest 1"
proof -
  have snap: "snapshot_forces two_at_rest 1 = Inr (576799299 / 250000000000000000000000000000000, 0)"
    by (simp add: snapshot_forces_def two_at_rest_def two_apart_snapshot_1)
  have "length (electrons two_at_rest) = 2"
    by (simp add: two_at_rest_def two_apart_def)
  then have round: "round_forces two_at_rest 1 = Inr (4786330845036781092019131 / 2074784507469702134487285025000000000000000000000, 0)"
    by (simp add: round_forces_def two_at_rest_round)
  from snap round show ?thesis by simp
qed


text \<open>
  C1, as the code has it. In a round that starts from \<open>s\<close>, the force on electron \<open>i\<close>
  is the one \<open>calculate_forces\<close> yields on the store reached after the first \<open>i\<close>
  calls of \<open>env.step()\<close>. In that store every electron before \<open>i\<close> already has the
  state it has at the end of the round, and every electron from \<open>i\<close> on still has the
  state it had at the start of the round.
\<close>

theorem forces_from_partly_advanced_positions:
  assumes start: "queue s = [0..<length (electrons s)]"
    and i: "i < length (electrons s)"
  shows "\<exists>s_i s_n. env_steps i s = Inr s_i \<and> env_steps (length (electrons s)) s = Inr s_n
     \<and> (\<exists>f. snapshot_forces s_i i = Inr f \<and> round_forces s i = Inr f)
     \<and> (\<forall>j < length (electrons s).
           electrons s_i ! j = (if j < i then electrons s_n ! j else electrons s ! j))"
proof -
  let ?es = "electrons s"
  let ?N = "length ?es"
  let ?Ei = "fold update_total [0..<i] ?es"
  let ?En = "fold update_total [0..<?N] ?es"
  let ?si = "s\<lparr>electrons := ?Ei, queue := rotate i [0..<?N]\<rparr>"
  let ?sn = "s\<lparr>electrons := ?En, queue := rotate ?N [0..<?N]\<rparr>"
  from i have ne: "?es \<noteq> []" by auto
  have run_i: "env_steps i s = Inr ?si"
    using env_steps_from_start [OF start ne, of i] i by (simp add: map_mod_upt)
  have run_n: "env_steps ?N s = Inr ?sn"
    using env_steps_from_start [OF start ne, of ?N] by (simp add: map_mod_upt)
  have "[0..<?N] = [0..<i] @ [i..<?N]"
    using i by (metis le_add_diff_inverse less_imp_le_nat upt_add_eq_append zero_le)
  moreover have "[i..<?N] = i # [Suc i..<?N]"
    using i by (simp add: upt_rec)
  ultimately have split: "?En = fold update_total [Suc i..<?N] (update_total i ?Ei)"
    by simp
  have at_i: "?En ! i = update_total i ?Ei ! i"
    unfolding split by (rule fold_update_total_other) simp
  have "i < length ?Ei" using i by simp
  then obtain es1 where cf: "calculate_forces i ?Ei = Inr es1"
    and fx: "force_x (update_total i ?Ei ! i) = force_x (es1 ! i)"
    and fy: "force_y (update_total i ?Ei ! i) = force_y (es1 ! i)"
    using update_total_forces by blast
  have snap: "snapshot_forces ?si i = Inr (force_x (es1 ! i), force_y (es1 ! i))"
    by (simp add: snapshot_forces_def cf)
  have round: "round_forces s i = Inr (force_x (es1 ! i), force_y (es1 ! i))"
    by (simp add: round_forces_def run_n at_i fx fy)
  have stores: "?Ei ! j = (if j < i then ?En ! j else ?es ! j)" for j
  proof (cases "j < i")
    case True
    then have "?En ! j = update_total i ?Ei ! j"
      unfolding split by (intro fold_update_total_other) simp
    also have "\<dots> = ?Ei ! j"
      using True by (simp add: update_total_other)
    finally show ?thesis using True by simp
  next
    case False
    then have "?Ei ! j = ?es ! j"
      by (intro fold_update_total_other) simp
    with False show ?thesis by simp
  qed
  from run_i run_n snap round stores show ?thesis by simp
qed

theorem forces_from_partly_advanced_positions_witness:
  "queue two_at_rest = [0..<length (electrons two_at_rest)]
   \<and> 1 < length (electrons two_at_rest)
   \<and> (\<exists>s_i s_n. env_steps 1 two_at_rest = Inr s_i
         \<and> env_steps (length (electrons two_at_rest)) two_at_rest = Inr s_n
         \<and> (\<exists>f. snapshot_forces s_i 1 = Inr f \<and> round_forces two_at_rest 1 = Inr f)
         \<and> (\<forall>j < length (electrons two_at_rest).
               electrons s_i ! j = (if j < 1 then electrons s_n ! j else electrons two_at_rest ! j)))"
proof -
  have h1: "queue two_at_rest = [0..<length (electrons two_at_rest)]"
    by (simp add: two_at_rest_def two_apart_def)
  have h2: "1 < length (electrons two_at_rest)"
    by (simp add: two_at_rest_def two_apart_def)
  from h1 h2 forces_from_partly_advanced_positions [OF h1 h2] show ?thesis by blast
qed

end
